theory Spec2Isabelle
  imports Complex_Main "HOL-Library.Product_Lexorder" "HOL-Library.Log_Nat"
begin

section \<open>Data model\<close>

text \<open>
  Dates are day numbers counted from 1970-01-01 (a Thursday), the way a parsed
  \<^verbatim>\<open>pd.to_datetime\<close> column of plain dates orders and subtracts. Day 3 is
  Sunday 1970-01-04, so the Sundays are the days congruent to 3 modulo 7.
\<close>

type_synonym date = int

text \<open>
  \<^verbatim>\<open>Weekly_Sales\<close> is a column of 64-bit floats. A finite double is taken as the real
  number it denotes, and every addition and subtraction on doubles is the exact result
  rounded to the nearest double, ties to the even significand: 53 significant bits,
  exponent of the last bit not below -1074 (the subnormal range). Infinities, NaN and
  the sign of zero are not represented, so the model covers sums that stay finite.
\<close>

type_synonym double = real

definition pow2 :: "int \<Rightarrow> real" where
  "pow2 k = (if 0 \<le> k then 2 ^ nat k else 1 / 2 ^ nat (- k))"

text \<open>The exponent of the leading bit of a positive number: the floor of its binary logarithm.\<close>

definition ilog2 :: "real \<Rightarrow> int" where
  "ilog2 x = (if 1 \<le> x then bitlen \<lfloor>x\<rfloor> - 1 else - bitlen (\<lceil>1 / x\<rceil> - 1))"

definition round_half_even :: "real \<Rightarrow> int" where
  "round_half_even q =
     (let f = \<lfloor>q\<rfloor>; r = q - of_int f
      in if r < 1 / 2 then f else if 1 / 2 < r then f + 1 else if even f then f else f + 1)"

definition round_double :: "real \<Rightarrow> double" where
  "round_double x =
     (if x = 0 then 0
      else let e = max (ilog2 \<bar>x\<bar> - 52) (- 1074)
           in sgn x * of_int (round_half_even (\<bar>x\<bar> / pow2 e)) * pow2 e)"

definition dadd :: "double \<Rightarrow> double \<Rightarrow> double" where
  "dadd a b = round_double (a + b)"

definition dsub :: "double \<Rightarrow> double \<Rightarrow> double" where
  "dsub a b = round_double (a - b)"

text \<open>
  The sum of one group as pandas computes it for \<^verbatim>\<open>groupby(...).sum()\<close> and
  \<^verbatim>\<open>resample(...).sum()\<close> alike: one pass over the values of the group in their
  order, with a running sum and a running compensation (Kahan summation):
  \<^verbatim>\<open>y = val - compensation; t = sumx + y; compensation = t - sumx - y; sumx = t\<close>.
  The state is the pair of the sum and the compensation; a group without values sums
  to 0.
\<close>

definition kahan_step :: "double \<times> double \<Rightarrow> double \<Rightarrow> double \<times> double" where
  "kahan_step sc val =
     (let y = dsub val (snd sc); t = dadd (fst sc) y
      in (t, dsub (dsub t (fst sc)) y))"

definition group_sum :: "double list \<Rightarrow> double" where
  "group_sum vals = fst (foldl kahan_step (0, 0) vals)"

record sales_row =
  Store :: int
  Dept :: int
  Date :: date
  Weekly_Sales :: double
  IsHoliday :: bool

text \<open>
  The columns of \<^verbatim>\<open>features.csv\<close> and \<^verbatim>\<open>stores.csv\<close> that are not join
  keys are never named in the source; they are carried as one payload per row.
\<close>

record 'f feature_row =
  f_Store :: int
  f_Date :: date
  f_IsHoliday :: bool
  f_cols :: 'f

record 's store_row =
  s_Store :: int
  s_cols :: 's

text \<open>
  A row of the merged frame: the sales columns, then the feature columns and the
  store columns, each \<open>None\<close> (null) where the left join found no partner.
\<close>

record ('f, 's) observation = sales_row +
  feature_cols :: "'f option"
  store_cols :: "'s option"

type_synonym series = "(date \<times> double option) list"

section \<open>The pandas operations the two programs call\<close>

text \<open>
  \<^verbatim>\<open>left.merge(right, on=..., how="left")\<close>: the left rows in their order; a left
  row with partners is repeated once per partner, a left row without a partner is
  kept once with nulls.
\<close>

definition merge_left ::
  "('a \<Rightarrow> 'b \<Rightarrow> bool) \<Rightarrow> ('a \<Rightarrow> 'b option \<Rightarrow> 'c) \<Rightarrow> 'a list \<Rightarrow> 'b list \<Rightarrow> 'c list" where
  "merge_left on_keys combine left right =
     concat (map (\<lambda>l. case filter (on_keys l) right of
                          [] \<Rightarrow> [combine l None]
                        | ms \<Rightarrow> map (\<lambda>r. combine l (Some r)) ms) left)"

text \<open>
  \<^verbatim>\<open>resample("W")\<close> is weekly with anchor Sunday, bins closed and labelled on the
  right: a date belongs to the bin named by the first Sunday on or after it.
\<close>

definition week_end :: "date \<Rightarrow> date" where
  "week_end d = d + (3 - d) mod 7"

text \<open>The regular index from \<open>lo\<close> to \<open>hi\<close> in steps of seven days (empty when \<open>hi < lo\<close>).\<close>

definition week_range :: "date \<Rightarrow> date \<Rightarrow> date list" where
  "week_range lo hi = map (\<lambda>k. lo + 7 * int k) [0..<nat ((hi - lo) div 7 + 1)]"

text \<open>
  \<^verbatim>\<open>.resample("W").sum()\<close>: the bins run from the bin of the smallest index date to
  the bin of the largest one, and every bin, also one without observations, gets the
  sum of its values in their order in the series (the sum of no values is 0, never
  NaN).
\<close>

definition resample_W_sum :: "(date \<times> double) list \<Rightarrow> series" where
  "resample_W_sum ts =
     (if ts = [] then []
      else map (\<lambda>w. (w, Some (group_sum (map snd (filter (\<lambda>p. week_end (fst p) = w) ts)))))
               (week_range (week_end (Min (set (map fst ts))))
                           (week_end (Max (set (map fst ts))))))"

text \<open>\<^verbatim>\<open>.dropna()\<close>: the entries whose value is NaN are removed.\<close>

definition dropna :: "series \<Rightarrow> series" where
  "dropna ts = filter (\<lambda>p. snd p \<noteq> None) ts"

text \<open>
  \<^verbatim>\<open>sd.groupby("Date")["Weekly_Sales"].sum()\<close>: one entry per distinct date, in date
  order, holding the sum of the rows of that date in their order in the frame.
\<close>

definition groupby_Date_sum :: "'a sales_row_scheme list \<Rightarrow> (date \<times> double) list" where
  "groupby_Date_sum sd =
     map (\<lambda>d. (d, group_sum (map Weekly_Sales (filter (\<lambda>r. Date r = d) sd))))
         (sort (remdups (map Date sd)))"

definition sort_index :: "(date \<times> double) list \<Rightarrow> (date \<times> double) list" where
  "sort_index ts = sort_key fst ts"

text \<open>\<^verbatim>\<open>sd.set_index("Date")["Weekly_Sales"]\<close>\<close>

definition set_index_Date :: "'a sales_row_scheme list \<Rightarrow> (date \<times> double) list" where
  "set_index_Date sd = map (\<lambda>r. (Date r, Weekly_Sales r)) sd"

text \<open>
  \<^verbatim>\<open>sort_values\<close> is modelled by the stable \<open>sort_key\<close>: rows of equal key keep
  their order in the frame. The library promises no order for them; it can enter a
  result only through the rounding of a sum over rows of equal date.

  \<^verbatim>\<open>data[(data["Store"] == store_id) & (data["Dept"] == dept_id)]\<close>:
\<close>

definition select_key :: "'a sales_row_scheme list \<Rightarrow> int \<Rightarrow> int \<Rightarrow> 'a sales_row_scheme list" where
  "select_key data store_id dept_id =
     filter (\<lambda>r. Store r = store_id \<and> Dept r = dept_id) data"

section \<open>Loading and merging (both programs)\<close>

datatype load_error = FileNotFound

text \<open>
  \<^verbatim>\<open>load_data\<close> of both files; a table is \<open>None\<close> when its file is missing. The
  first merge is on Store, Date and IsHoliday, the second on Store, both left joins;
  then the frame is sorted by Store, Dept and Date.
\<close>

definition load_data ::
  "sales_row list option \<Rightarrow> 'f feature_row list option \<Rightarrow> 's store_row list option
     \<Rightarrow> load_error + ('f, 's) observation list" where
  "load_data train_csv features_csv stores_csv =
     (case (train_csv, stores_csv, features_csv) of
        (Some train, Some stores, Some features) \<Rightarrow>
          (let data1 = merge_left
                 (\<lambda>t f. Store t = f_Store f \<and> Date t = f_Date f \<and> IsHoliday t = f_IsHoliday f)
                 Pair train features;
               data2 = merge_left
                 (\<lambda>tf s. Store (fst tf) = s_Store s)
                 (\<lambda>tf s. sales_row.extend (fst tf)
                            \<lparr>feature_cols = map_option f_cols (snd tf),
                             store_cols = map_option s_cols s\<rparr>)
                 data1 stores
           in Inr (sort_key (\<lambda>r. (Store r, Dept r, Date r)) data2))
      | _ \<Rightarrow> Inl FileNotFound)"

section \<open>The fitted model and its forecast\<close>

text \<open>
  The Holt-Winters fit and forecast are calls into the statistics library
  (\<^verbatim>\<open>ExponentialSmoothing(...).fit(...)\<close> and \<^verbatim>\<open>.forecast(steps)\<close>), whose code
  is not part of the two programs. The fit takes the weekly series and the seasonal
  period and either raises or returns a fitted model: it is a parameter \<open>fit\<close> of
  the pipelines below, and \<open>predict mdl k\<close> is the value the fitted model gives
  \<open>k\<close> steps ahead.

  The library's \<^verbatim>\<open>forecast(steps)\<close> over a weekly index predicts from
  \<^verbatim>\<open>index[-1] + freq\<close> to \<^verbatim>\<open>index[-1] + steps * freq\<close> and raises when that
  end does not reach the start; \<open>PredictionRaised\<close> stands for that exception,
  \<open>Raised e\<close> for an exception \<open>e\<close> of the fit.
\<close>

datatype 'e exn = Raised 'e | EmptyIndex | PredictionRaised

definition forecast ::
  "('m \<Rightarrow> nat \<Rightarrow> real) \<Rightarrow> 'm \<Rightarrow> series \<Rightarrow> int \<Rightarrow> 'e exn + (date \<times> real) list" where
  "forecast predict mdl ts steps =
     (if ts = [] then Inl EmptyIndex
      else let start = fst (last ts) + 7;
               stop = fst (last ts) + steps * 7
           in if stop < start then Inl PredictionRaised
              else let idx = week_range start stop
                   in Inr (zip idx (map (predict mdl) [1..<Suc (length idx)])))"

section \<open>app.py: generate_forecast\<close>

text \<open>
  The messages of \<^verbatim>\<open>generate_forecast\<close>, each with the values its f-string prints:
  store and department; the number of weekly points, the number asked for
  (\<^verbatim>\<open>2 * seasonal_periods\<close>) and the seasonal period; the exception.
\<close>

datatype 'e app_message =
    No_data_for_Store_Dept int int
  | Insufficient_data_have_need nat int int
  | Error_during_model_fitting "'e exn"

text \<open>Lines 63 to 74: filter, sort by date, resample to weekly sums, drop NaN.\<close>

definition app_ts :: "'a sales_row_scheme list \<Rightarrow> int \<Rightarrow> int \<Rightarrow> series" where
  "app_ts data store_id dept_id =
     dropna (resample_W_sum (set_index_Date (sort_key Date (select_key data store_id dept_id))))"

text \<open>
  Lines 85 to 105, the \<^verbatim>\<open>try\<close> block: fit, then forecast; any exception of either
  becomes the fitting-error message.
\<close>

definition app_fit_stage ::
  "(series \<Rightarrow> int \<Rightarrow> 'e + 'm) \<Rightarrow> ('m \<Rightarrow> nat \<Rightarrow> real) \<Rightarrow> series \<Rightarrow> int \<Rightarrow> int
     \<Rightarrow> 'e app_message + series \<times> (date \<times> real) list" where
  "app_fit_stage fit predict ts future_periods seasonal_periods =
     (case fit ts seasonal_periods of
        Inl e \<Rightarrow> Inl (Error_during_model_fitting (Raised e))
      | Inr hw_full \<Rightarrow>
          (case forecast predict hw_full ts future_periods of
             Inl e \<Rightarrow> Inl (Error_during_model_fitting e)
           | Inr future_forecast \<Rightarrow> Inr (ts, future_forecast)))"

text \<open>
  The result is the historical series with the forecast, or a message. (The third
  component of the source's tuple is the forecast again with its dates printed as
  text.)
\<close>

definition generate_forecast ::
  "(series \<Rightarrow> int \<Rightarrow> 'e + 'm) \<Rightarrow> ('m \<Rightarrow> nat \<Rightarrow> real) \<Rightarrow> 'a sales_row_scheme list
     \<Rightarrow> int \<Rightarrow> int \<Rightarrow> int \<Rightarrow> int \<Rightarrow> 'e app_message + series \<times> (date \<times> real) list" where
  "generate_forecast fit predict data store_id dept_id future_periods seasonal_periods =
     (if select_key data store_id dept_id = [] then Inl (No_data_for_Store_Dept store_id dept_id)
      else let ts = app_ts data store_id dept_id
           in if int (length ts) < max (2 * seasonal_periods) (seasonal_periods + 5)
              then Inl (Insufficient_data_have_need (length ts) (2 * seasonal_periods) seasonal_periods)
              else app_fit_stage fit predict ts future_periods seasonal_periods)"

section \<open>sales.py: run_forecast\<close>

text \<open>
  What \<^verbatim>\<open>int(...)\<close> sees in a widget's text: nothing, text that is no integer, or
  an integer.
\<close>

datatype entry = Blank | NoNumber | Number int

text \<open>The message boxes of \<^verbatim>\<open>run_forecast\<close>; \<open>Uncaught\<close> is an exception leaving the function.\<close>

datatype 'e gui_message =
    Please_select_both_Store_and_Department
  | Store_and_Dept_must_be_numbers
  | Weeks_must_be_a_positive_integer
  | No_rows_for_this_combination
  | Need_at_least_20_data_points
  | Error_fitting_model 'e
  | Uncaught "'e exn"

text \<open>Lines 71 to 80: filter, sum per date, sort the index, resample to weekly sums.\<close>

definition gui_ts :: "'a sales_row_scheme list \<Rightarrow> int \<Rightarrow> int \<Rightarrow> series" where
  "gui_ts data store_id dept_id =
     resample_W_sum (sort_index (groupby_Date_sum (select_key data store_id dept_id)))"

text \<open>
  Lines 86 to 106: the fit with \<^verbatim>\<open>seasonal_periods = 52\<close> inside \<^verbatim>\<open>try\<close>, the
  forecast after it.
\<close>

definition gui_fit_stage ::
  "(series \<Rightarrow> int \<Rightarrow> 'e + 'm) \<Rightarrow> ('m \<Rightarrow> nat \<Rightarrow> real) \<Rightarrow> series \<Rightarrow> int
     \<Rightarrow> 'e gui_message + series \<times> (date \<times> real) list" where
  "gui_fit_stage fit predict ts future_periods =
     (case fit ts 52 of
        Inl e \<Rightarrow> Inl (Error_fitting_model e)
      | Inr model \<Rightarrow>
          (case forecast predict model ts future_periods of
             Inl e \<Rightarrow> Inl (Uncaught e)
           | Inr future_forecast \<Rightarrow> Inr (ts, future_forecast)))"

text \<open>The result is what the function plots, the series and the forecast, or a message.\<close>

definition run_forecast ::
  "(series \<Rightarrow> int \<Rightarrow> 'e + 'm) \<Rightarrow> ('m \<Rightarrow> nat \<Rightarrow> real) \<Rightarrow> 'a sales_row_scheme list
     \<Rightarrow> entry \<Rightarrow> entry \<Rightarrow> entry \<Rightarrow> 'e gui_message + series \<times> (date \<times> real) list" where
  "run_forecast fit predict data store_val dept_val weeks_val =
     (if store_val = Blank \<or> dept_val = Blank then Inl Please_select_both_Store_and_Department
      else case (store_val, dept_val) of
        (Number store_id, Number dept_id) \<Rightarrow>
          (case weeks_val of
             Number future_periods \<Rightarrow>
               if future_periods \<le> 0 then Inl Weeks_must_be_a_positive_integer
               else if select_key data store_id dept_id = [] then Inl No_rows_for_this_combination
               else let ts = gui_ts data store_id dept_id
                    in if length ts < 20 then Inl Need_at_least_20_data_points
                       else gui_fit_stage fit predict ts future_periods
           | _ \<Rightarrow> Inl Weeks_must_be_a_positive_integer)
      | _ \<Rightarrow> Inl Store_and_Dept_must_be_numbers)"

section \<open>What the claims are measured against\<close>

text \<open>
  The calendar week that ends on the Sunday \<open>w\<close>: Monday \<open>w - 6\<close> to Sunday \<open>w\<close>.
\<close>

definition in_week :: "date \<Rightarrow> date \<Rightarrow> bool" where
  "in_week w d \<longleftrightarrow> w - 6 \<le> d \<and> d \<le> w"




text \<open>A value is a double when rounding leaves it as it is.\<close>

definition is_double :: "real \<Rightarrow> bool" where
  "is_double x \<longleftrightarrow> round_double x = x"

text \<open>The labels of the weekly bins of the rows of one key.\<close>

definition week_labels :: "'a sales_row_scheme list \<Rightarrow> date list" where
  "week_labels sd =
     (if sd = [] then []
      else week_range (week_end (Min (Date ` set sd))) (week_end (Max (Date ` set sd))))"

text \<open>
  Example inputs. \<open>example_rows\<close>: store 1, department 1 has sales on Monday day 4
  (twice), Saturday day 9 and Monday day 25, and department 2 on day 4.
  \<open>two_rows n\<close>: one key with two observations \<open>n\<close> weeks apart.
  \<open>tenth_rows\<close>: one key with the sales 0.1 and 0.2 on Monday day 4 and 0.3 on
  Tuesday day 5, each the double nearest to the decimal.
\<close>

definition example_rows :: "sales_row list" where
  "example_rows =
     [\<lparr>Store = 1, Dept = 1, Date = 25, Weekly_Sales = 4, IsHoliday = False\<rparr>,
      \<lparr>Store = 1, Dept = 2, Date = 4, Weekly_Sales = 100, IsHoliday = False\<rparr>,
      \<lparr>Store = 1, Dept = 1, Date = 4, Weekly_Sales = 2, IsHoliday = False\<rparr>,
      \<lparr>Store = 1, Dept = 1, Date = 9, Weekly_Sales = 1, IsHoliday = True\<rparr>,
      \<lparr>Store = 1, Dept = 1, Date = 4, Weekly_Sales = 3, IsHoliday = False\<rparr>]"

definition tenth_rows :: "sales_row list" where
  "tenth_rows =
     [\<lparr>Store = 1, Dept = 1, Date = 4, Weekly_Sales = round_double (1 / 10), IsHoliday = False\<rparr>,
      \<lparr>Store = 1, Dept = 1, Date = 4, Weekly_Sales = round_double (2 / 10), IsHoliday = False\<rparr>,
      \<lparr>Store = 1, Dept = 1, Date = 5, Weekly_Sales = round_double (3 / 10), IsHoliday = False\<rparr>]"

definition two_rows :: "int \<Rightarrow> sales_row list" where
  "two_rows n =
     [\<lparr>Store = 1, Dept = 1, Date = 3, Weekly_Sales = 1, IsHoliday = False\<rparr>,
      \<lparr>Store = 1, Dept = 1, Date = 3 + 7 * n, Weekly_Sales = 1, IsHoliday = False\<rparr>]"

text \<open>
  The row the second merge of \<^verbatim>\<open>load_data\<close> builds from a row of the first merge
  and the store row found (or none); and example tables.
\<close>

definition joined ::
  "sales_row \<times> 'f feature_row option \<Rightarrow> 's store_row option \<Rightarrow> ('f, 's) observation" where
  "joined tf s = sales_row.extend (fst tf)
                   \<lparr>feature_cols = map_option f_cols (snd tf), store_cols = map_option s_cols s\<rparr>"

definition example_features :: "string feature_row list" where
  "example_features =
     [\<lparr>f_Store = 1, f_Date = 4, f_IsHoliday = False, f_cols = ''mild''\<rparr>,
      \<lparr>f_Store = 1, f_Date = 9, f_IsHoliday = False, f_cols = ''cold''\<rparr>]"

definition example_stores :: "string store_row list" where
  "example_stores = [\<lparr>s_Store = 2, s_cols = ''B''\<rparr>]"

text \<open>
  Example fits: one that always raises and one that always returns a model, and a model
  whose value \<open>k\<close> steps ahead is \<open>k\<close>.
\<close>

definition failing_fit :: "series \<Rightarrow> int \<Rightarrow> unit + unit" where
  "failing_fit ts m = Inl ()"

definition constant_fit :: "series \<Rightarrow> int \<Rightarrow> unit + unit" where
  "constant_fit ts m = Inr ()"

definition step_predict :: "unit \<Rightarrow> nat \<Rightarrow> real" where
  "step_predict mdl k = real k"

section \<open>Weeks and week ranges\<close>

lemma week_end_sunday: "week_end d mod 7 = 3"
  unfolding week_end_def by presburger

lemma week_end_ge: "d \<le> week_end d"
  unfolding week_end_def by simp

lemma week_end_lt: "week_end d < d + 7"
  unfolding week_end_def by simp

lemma week_end_mono: "a \<le> b \<Longrightarrow> week_end a \<le> week_end b"
  unfolding week_end_def by presburger


lemma length_week_range: "length (week_range lo hi) = nat ((hi - lo) div 7 + 1)"
  by (simp add: week_range_def)

lemma nth_week_range: "i < length (week_range lo hi) \<Longrightarrow> week_range lo hi ! i = lo + 7 * int i"
  by (simp add: week_range_def)


lemma week_range_nonempty: "lo \<le> hi \<Longrightarrow> week_range lo hi \<noteq> []"
proof -
  assume "lo \<le> hi"
  then have "0 \<le> (hi - lo) div 7" by simp
  then have "0 < nat ((hi - lo) div 7 + 1)" by simp
  then show ?thesis using length_week_range[of lo hi] by auto
qed

lemma hd_week_range: "lo \<le> hi \<Longrightarrow> hd (week_range lo hi) = lo"
  using week_range_nonempty[of lo hi] nth_week_range[of 0 lo hi]
  by (simp add: hd_conv_nth)

lemma last_week_range: "lo \<le> hi \<Longrightarrow> (hi - lo) mod 7 = 0 \<Longrightarrow> last (week_range lo hi) = hi"
proof -
  assume a: "lo \<le> hi" "(hi - lo) mod 7 = 0"
  have ne: "week_range lo hi \<noteq> []" using a week_range_nonempty by simp
  have "last (week_range lo hi) = week_range lo hi ! (length (week_range lo hi) - 1)"
    using ne by (rule last_conv_nth)
  also have "\<dots> = lo + 7 * int (length (week_range lo hi) - 1)"
    using ne by (intro nth_week_range) simp
  also have "\<dots> = hi"
  proof -
    have nn: "0 \<le> (hi - lo) div 7" using a by simp
    have ex: "7 * ((hi - lo) div 7) = hi - lo" using a by presburger
    have "int (nat ((hi - lo) div 7 + 1) - 1) = (hi - lo) div 7" using nn by simp
    then show ?thesis using ex unfolding length_week_range by simp
  qed
  finally show ?thesis .
qed

section \<open>The dates of the weekly series\<close>

lemma dates_resample:
  "map fst (resample_W_sum ts) =
     (if ts = [] then []
      else week_range (week_end (Min (set (map fst ts)))) (week_end (Max (set (map fst ts)))))"
  by (simp add: resample_W_sum_def o_def)

lemma dropna_resample: "dropna (resample_W_sum ts) = resample_W_sum ts"
  by (simp add: dropna_def resample_W_sum_def filter_map o_def)

lemma sort_key_empty: "sort_key k xs = [] \<longleftrightarrow> xs = []"
  by (metis length_sort list.size(3) length_0_conv)

lemma remdups_empty: "remdups xs = [] \<longleftrightarrow> xs = []"
  by (induction xs) auto

lemma groupby_empty: "groupby_Date_sum sd = [] \<longleftrightarrow> sd = []"
  by (simp add: groupby_Date_sum_def sort_key_empty remdups_empty)

lemma dates_groupby: "map fst (groupby_Date_sum sd) = sort (remdups (map Date sd))"
  by (simp add: groupby_Date_sum_def o_def)

lemma sort_index_groupby: "sort_index (groupby_Date_sum sd) = groupby_Date_sum sd"
  unfolding sort_index_def
  by (rule sort_key_id_if_sorted) (simp add: dates_groupby)

lemma app_ts_labels: "map fst (app_ts data s d) = week_labels (select_key data s d)"
  by (simp add: app_ts_def dropna_resample dates_resample week_labels_def set_index_Date_def
      sort_key_empty o_def image_image)

lemma gui_ts_labels: "map fst (gui_ts data s d) = week_labels (select_key data s d)"
proof -
  have "set (map fst (groupby_Date_sum (select_key data s d))) = Date ` set (select_key data s d)"
    unfolding dates_groupby by simp
  then show ?thesis
    unfolding gui_ts_def sort_index_groupby dates_resample week_labels_def
    by (simp add: groupby_empty)
qed

lemma week_labels_range:
  assumes "sd \<noteq> []"
  shows "week_end (Min (Date ` set sd)) \<le> week_end (Max (Date ` set sd))"
proof -
  have "Min (Date ` set sd) \<le> Max (Date ` set sd)"
    using assms by (intro Min_le_iff[THEN iffD2]) auto
  then show ?thesis by (rule week_end_mono)
qed




lemma week_labels_ends:
  assumes "sd \<noteq> []"
  shows "week_labels sd \<noteq> []"
    and "hd (week_labels sd) = week_end (Min (Date ` set sd))"
    and "last (week_labels sd) = week_end (Max (Date ` set sd))"
proof -
  let ?lo = "week_end (Min (Date ` set sd))" and ?hi = "week_end (Max (Date ` set sd))"
  have le: "?lo \<le> ?hi" using assms by (rule week_labels_range)
  have m: "(?hi - ?lo) mod 7 = 0"
    using week_end_sunday[of "Min (Date ` set sd)"] week_end_sunday[of "Max (Date ` set sd)"]
    by (simp add: mod_diff_eq[symmetric])
  show "week_labels sd \<noteq> []" using assms week_range_nonempty[OF le] by (simp add: week_labels_def)
  show "hd (week_labels sd) = ?lo" using assms hd_week_range[OF le] by (simp add: week_labels_def)
  show "last (week_labels sd) = ?hi"
    using assms last_week_range[OF le m] by (simp add: week_labels_def)
qed


lemma app_ts_nonempty: "select_key data s d \<noteq> [] \<Longrightarrow> app_ts data s d \<noteq> []"
  using app_ts_labels[of data s d] week_labels_ends(1)[of "select_key data s d"] by auto

lemma gui_ts_nonempty: "select_key data s d \<noteq> [] \<Longrightarrow> gui_ts data s d \<noteq> []"
  using gui_ts_labels[of data s d] week_labels_ends(1)[of "select_key data s d"] by auto

section \<open>The values of the weekly series\<close>








section \<open>Evaluating the double arithmetic\<close>

lemmas double_eval = round_double_def ilog2_def round_half_even_def pow2_def dadd_def dsub_def
  kahan_step_def group_sum_def compute_bitlen Let_def

lemma tenth_doubles:
  "round_double (1 / 10) = 3602879701896397 / 36028797018963968"
  "round_double (2 / 10) = 3602879701896397 / 18014398509481984"
  "round_double (1 / 5) = 3602879701896397 / 18014398509481984"
  "round_double (3 / 10) = 5404319552844595 / 18014398509481984"
  by (simp_all add: double_eval)

lemma group_sum_tenths:
  "group_sum [3602879701896397 / 36028797018963968, 3602879701896397 / 18014398509481984,
              5404319552844595 / 18014398509481984] = 5404319552844595 / 9007199254740992"
  "group_sum [3602879701896397 / 36028797018963968, 3602879701896397 / 18014398509481984]
     = 1351079888211149 / 4503599627370496"
  "group_sum [5404319552844595 / 18014398509481984] = 5404319552844595 / 18014398509481984"
  "group_sum [1351079888211149 / 4503599627370496, 5404319552844595 / 18014398509481984]
     = 1351079888211149 / 2251799813685248"
  by (simp_all add: double_eval)

lemma group_sum_small:
  "group_sum [] = 0" "group_sum [2, 3, 1] = 6" "group_sum [4] = 4" "group_sum [1] = 1"
  "group_sum [2, 3] = 5" "group_sum [5, 1] = 6"
  by (simp_all add: double_eval)

lemma app_ts_example:
  "app_ts example_rows 1 1 = [(10, Some 6), (17, Some 0), (24, Some 0), (31, Some 4)]"
  unfolding app_ts_def dropna_resample
  by (simp add: example_rows_def select_key_def set_index_Date_def resample_W_sum_def
      week_end_def week_range_def upt_rec group_sum_small)


lemma app_ts_tenths:
  "app_ts tenth_rows 1 1 = [(10, Some (5404319552844595 / 9007199254740992))]"
  unfolding app_ts_def dropna_resample
  by (simp add: tenth_rows_def select_key_def set_index_Date_def resample_W_sum_def
      week_end_def week_range_def upt_rec tenth_doubles group_sum_tenths)

lemma gui_ts_tenths:
  "gui_ts tenth_rows 1 1 = [(10, Some (1351079888211149 / 2251799813685248))]"
  by (simp add: gui_ts_def tenth_rows_def select_key_def groupby_Date_sum_def sort_index_def
      resample_W_sum_def week_end_def week_range_def upt_rec tenth_doubles group_sum_tenths)


section \<open>The weekly series\<close>




section \<open>The two constructions compared\<close>

lemma group_sum_single: "is_double v \<Longrightarrow> group_sum [v] = v"
  by (simp add: group_sum_def kahan_step_def dadd_def dsub_def is_double_def)

lemma filter_same_key:
  "distinct (map f xs) \<Longrightarrow> x \<in> set xs \<Longrightarrow> filter (\<lambda>y. f y = f x) xs = [x]"
proof (induction xs)
  case Nil
  then show ?case by simp
next
  case (Cons a xs)
  show ?case
  proof (cases "x = a")
    case True
    have "f a \<notin> f ` set xs" using Cons.prems(1) by simp
    then have "\<forall>y \<in> set xs. f y \<noteq> f a" by (metis imageI)
    then have "filter (\<lambda>y. f y = f a) xs = []" by (simp add: filter_empty_conv)
    with True show ?thesis by simp
  next
    case False
    with Cons.prems have x: "x \<in> set xs" and d: "distinct (map f xs)" and "f a \<noteq> f x"
      by auto
    with Cons.IH show ?thesis by simp
  qed
qed

lemma map_insort_key: "map f (insort_key f x xs) = insort (f x) (map f xs)"
  by (induction xs) auto

lemma map_sort_key: "map f (sort_key f xs) = sort (map f xs)"
  by (induction xs) (auto simp: map_insort_key)

lemma groupby_of_distinct_dates:
  assumes "distinct (map Date sd)" and "\<forall>r \<in> set sd. is_double (Weekly_Sales r)"
  shows "groupby_Date_sum sd = set_index_Date (sort_key Date sd)"
proof -
  have "groupby_Date_sum sd =
          map (\<lambda>dt. (dt, group_sum (map Weekly_Sales (filter (\<lambda>r. Date r = dt) sd))))
            (map Date (sort_key Date sd))"
    using assms(1) by (simp add: groupby_Date_sum_def map_sort_key distinct_remdups_id)
  also have "\<dots> = map (\<lambda>r. (Date r, group_sum (map Weekly_Sales
                                   (filter (\<lambda>r'. Date r' = Date r) sd)))) (sort_key Date sd)"
    by (simp add: o_def)
  also have "\<dots> = map (\<lambda>r. (Date r, Weekly_Sales r)) (sort_key Date sd)"
  proof (rule map_cong[OF refl])
    fix r assume "r \<in> set (sort_key Date sd)"
    then have r: "r \<in> set sd" by simp
    have "filter (\<lambda>r'. Date r' = Date r) sd = [r]"
      using assms(1) r by (rule filter_same_key)
    then show "(Date r, group_sum (map Weekly_Sales (filter (\<lambda>r'. Date r' = Date r) sd)))
                 = (Date r, Weekly_Sales r)"
      using assms(2) r by (simp add: group_sum_single)
  qed
  finally show ?thesis by (simp add: set_index_Date_def)
qed

text \<open>
  C10, as amended. For the same frame and the same store and department the two
  series have the same dates. When the key has at most one row per date (and its sales
  are doubles) the values are the same too, so the series are identical. With several
  rows of one date the values can differ in the last bits, because \<^verbatim>\<open>sales.py\<close>
  adds the rows of a date before it adds the week.
\<close>

theorem gui_series_and_app_series:
  fixes data :: "'a sales_row_scheme list"
  shows "map fst (gui_ts data store_id dept_id) = map fst (app_ts data store_id dept_id)
       \<and> (distinct (map Date (select_key data store_id dept_id)) \<longrightarrow>
          (\<forall>r \<in> set (select_key data store_id dept_id). is_double (Weekly_Sales r)) \<longrightarrow>
          gui_ts data store_id dept_id = app_ts data store_id dept_id)"
proof -
  have d: "map fst (gui_ts data store_id dept_id) = map fst (app_ts data store_id dept_id)"
    by (simp add: gui_ts_labels app_ts_labels)
  have v: "gui_ts data store_id dept_id = app_ts data store_id dept_id"
    if "distinct (map Date (select_key data store_id dept_id))"
      and "\<forall>r \<in> set (select_key data store_id dept_id). is_double (Weekly_Sales r)"
  proof -
    have "gui_ts data store_id dept_id
            = resample_W_sum (groupby_Date_sum (select_key data store_id dept_id))"
      by (simp add: gui_ts_def sort_index_groupby)
    also have "\<dots> = resample_W_sum
                       (set_index_Date (sort_key Date (select_key data store_id dept_id)))"
      by (simp only: groupby_of_distinct_dates[OF that])
    also have "\<dots> = app_ts data store_id dept_id"
      by (simp add: app_ts_def dropna_resample)
    finally show ?thesis .
  qed
  show ?thesis using d v by blast
qed

lemma app_ts_two_weeks_apart:
  "app_ts (two_rows 2) 1 1 = [(3, Some 1), (10, Some 0), (17, Some 1)]"
  unfolding app_ts_def dropna_resample
  by (simp add: two_rows_def select_key_def set_index_Date_def resample_W_sum_def
      week_end_def week_range_def upt_rec group_sum_small)

theorem gui_series_and_app_series_witness:
  "distinct (map Date (select_key (two_rows 2) 1 1))
     \<and> map Weekly_Sales (select_key (two_rows 2) 1 1) = [1, 1] \<and> is_double 1
     \<and> gui_ts (two_rows 2) 1 1 = app_ts (two_rows 2) 1 1
     \<and> app_ts (two_rows 2) 1 1 = [(3, Some 1), (10, Some 0), (17, Some 1)]
     \<and> map fst (gui_ts tenth_rows 1 1) = map fst (app_ts tenth_rows 1 1)"
proof -
  have d: "distinct (map Date (select_key (two_rows 2) 1 1))"
    by (simp add: select_key_def two_rows_def)
  have i: "\<forall>r \<in> set (select_key (two_rows 2) 1 1). is_double (Weekly_Sales r)"
    by (simp add: select_key_def two_rows_def is_double_def double_eval)
  have v: "map Weekly_Sales (select_key (two_rows 2) 1 1) = [1, 1]"
    by (simp add: select_key_def two_rows_def)
  have o: "is_double 1" by (simp add: is_double_def double_eval)
  show ?thesis
    using gui_series_and_app_series[of "two_rows 2" 1 1] gui_series_and_app_series[of tenth_rows 1 1]
      d i v o app_ts_two_weeks_apart by simp
qed

text \<open>
  C10 as stated fails: on the sales 0.1 and 0.2 of one day and 0.3 of the next, the
  week's value is 0.6000000000000001 in the series of \<^verbatim>\<open>sales.py\<close> and 0.6 in the
  series of \<^verbatim>\<open>app.py\<close>.
\<close>

theorem gui_and_app_values_differ_counterexample:
  "gui_ts tenth_rows 1 1 = [(10, Some (1351079888211149 / 2251799813685248))]
     \<and> app_ts tenth_rows 1 1 = [(10, Some (5404319552844595 / 9007199254740992))]
     \<and> gui_ts tenth_rows 1 1 \<noteq> app_ts tenth_rows 1 1"
  by (simp add: app_ts_tenths gui_ts_tenths)

section \<open>First and last week\<close>

lemma observed_week:
  assumes "x \<in> Date ` set (select_key data s d)"
  shows "\<exists>r \<in> set data. Store r = s \<and> Dept r = d \<and> in_week (week_end x) (Date r)"
proof -
  from assms obtain r where r: "r \<in> set data" "Store r = s" "Dept r = d" "Date r = x"
    by (auto simp: select_key_def)
  have "in_week (week_end x) x"
    using week_end_ge[of x] week_end_lt[of x] by (simp add: in_week_def)
  with r show ?thesis by auto
qed

text \<open>
  C4. When the store and department have rows, the weekly series of either program is
  not empty and its first and its last entry are weeks that contain at least one source
  observation of that key: the series starts at the week of the earliest observation and
  ends at the week of the latest one, with no empty week before or after.
\<close>

theorem first_and_last_week_observed:
  fixes data :: "'a sales_row_scheme list"
  assumes "ts = app_ts data store_id dept_id \<or> ts = gui_ts data store_id dept_id"
    and "select_key data store_id dept_id \<noteq> []"
  shows "ts \<noteq> []
       \<and> (\<exists>r \<in> set data. Store r = store_id \<and> Dept r = dept_id \<and> in_week (fst (hd ts)) (Date r))
       \<and> (\<exists>r \<in> set data. Store r = store_id \<and> Dept r = dept_id \<and> in_week (fst (last ts)) (Date r))"
proof -
  let ?sd = "select_key data store_id dept_id"
  from assms(1) have l: "map fst ts = week_labels ?sd"
    by (auto simp: app_ts_labels gui_ts_labels)
  have ne: "ts \<noteq> []" using l week_labels_ends(1)[OF assms(2)] by auto
  have h: "fst (hd ts) = week_end (Min (Date ` set ?sd))"
    using hd_map[OF ne, of fst] l week_labels_ends(2)[OF assms(2)] by simp
  have e: "fst (last ts) = week_end (Max (Date ` set ?sd))"
    using last_map[OF ne, of fst] l week_labels_ends(3)[OF assms(2)] by simp
  have fin: "finite (Date ` set ?sd)" "Date ` set ?sd \<noteq> {}" using assms(2) by auto
  have "Min (Date ` set ?sd) \<in> Date ` set ?sd" using fin by (rule Min_in)
  then have first: "\<exists>r \<in> set data. Store r = store_id \<and> Dept r = dept_id
                      \<and> in_week (fst (hd ts)) (Date r)"
    unfolding h by (rule observed_week)
  have "Max (Date ` set ?sd) \<in> Date ` set ?sd" using fin by (rule Max_in)
  then have final: "\<exists>r \<in> set data. Store r = store_id \<and> Dept r = dept_id
                      \<and> in_week (fst (last ts)) (Date r)"
    unfolding e by (rule observed_week)
  show ?thesis using first final ne by simp
qed

lemma select_key_example: "select_key example_rows 1 1 \<noteq> []"
  by (simp add: select_key_def example_rows_def)

theorem first_and_last_week_observed_witness:
  "select_key example_rows 1 1 \<noteq> []
     \<and> fst (hd (app_ts example_rows 1 1)) = 10 \<and> fst (last (app_ts example_rows 1 1)) = 31
     \<and> (\<exists>r \<in> set example_rows. Store r = 1 \<and> Dept r = 1 \<and> in_week 10 (Date r))
     \<and> (\<exists>r \<in> set example_rows. Store r = 1 \<and> Dept r = 1 \<and> in_week 31 (Date r))"
  using first_and_last_week_observed[of "app_ts example_rows 1 1" example_rows 1 1, OF _ select_key_example]
  by (simp add: app_ts_example select_key_example)

section \<open>The merged frame\<close>

lemma set_case_matches:
  "set (case ms of [] \<Rightarrow> [a] | x # xs \<Rightarrow> map f (x # xs)) = (if ms = [] then {a} else f ` set ms)"
  by (cases ms) simp_all

lemma set_merge_left:
  "set (merge_left on_keys combine left right) =
     (\<Union>l \<in> set left. if filter (on_keys l) right = [] then {combine l None}
                      else (\<lambda>r. combine l (Some r)) ` set (filter (on_keys l) right))"
  unfolding merge_left_def set_concat set_map image_image set_case_matches by (rule refl)

lemma merge_left_keeps:
  assumes "l \<in> set left"
  shows "\<exists>x. combine l x \<in> set (merge_left on_keys combine left right)"
proof (cases "filter (on_keys l) right = []")
  case True
  then have "combine l None \<in> set (merge_left on_keys combine left right)"
    using assms unfolding set_merge_left by (intro UN_I[where a=l]) auto
  then show ?thesis ..
next
  case False
  then obtain r where r: "r \<in> set (filter (on_keys l) right)" by (cases "filter (on_keys l) right") auto
  then have "combine l (Some r) \<in> set (merge_left on_keys combine left right)"
    using assms False unfolding set_merge_left by (intro UN_I[where a=l]) auto
  then show ?thesis ..
qed

lemma merge_left_origin:
  assumes "u \<in> set (merge_left on_keys combine left right)"
  shows "\<exists>l \<in> set left. (u = combine l None \<and> (\<forall>r \<in> set right. \<not> on_keys l r))
                     \<or> (\<exists>r \<in> set right. on_keys l r \<and> u = combine l (Some r))"
proof -
  from assms obtain l where l: "l \<in> set left"
    and u: "u \<in> (if filter (on_keys l) right = [] then {combine l None}
               else (\<lambda>r. combine l (Some r)) ` set (filter (on_keys l) right))"
    unfolding set_merge_left by blast
  show ?thesis
  proof (cases "filter (on_keys l) right = []")
    case True
    then have "\<forall>r \<in> set right. \<not> on_keys l r" by (simp add: filter_empty_conv)
    with True u l show ?thesis by auto
  next
    case False
    with u obtain r where "r \<in> set right" "on_keys l r" "u = combine l (Some r)" by auto
    with l show ?thesis by blast
  qed
qed

lemma joined_simps:
  "sales_row.truncate (joined (t, f) s) = t"
  "Store (joined (t, f) s) = Store t"
  "Dept (joined (t, f) s) = Dept t"
  "Date (joined (t, f) s) = Date t"
  "IsHoliday (joined (t, f) s) = IsHoliday t"
  "feature_cols (joined (t, f) s) = map_option f_cols f"
  "store_cols (joined (t, f) s) = map_option s_cols s"
  by (simp_all add: joined_def sales_row.defs)

lemma load_data_eq:
  "load_data (Some train) (Some features) (Some stores) =
     Inr (sort_key (\<lambda>r. (Store r, Dept r, Date r))
       (merge_left (\<lambda>tf s. Store (fst tf) = s_Store s) joined
         (merge_left (\<lambda>t f. Store t = f_Store f \<and> Date t = f_Date f \<and> IsHoliday t = f_IsHoliday f)
            Pair train features) stores))"
  by (simp add: load_data_def joined_def[abs_def])

text \<open>
  C8. Loading succeeds when the three tables are there, and the merged frame is a
  left join: every sales row is in it with its own columns unchanged; every row of the
  frame comes from a sales row; its feature columns are those of a feature row equal
  on Store, Date and IsHoliday, or null when no feature row is; its store columns are
  those of a store row of the same Store, or null when there is none; and the frame is
  sorted ascending by Store, Dept and Date.
\<close>

theorem load_data_left_join_sorted:
  fixes train :: "sales_row list" and features :: "'f feature_row list"
    and stores :: "'s store_row list"
  shows "\<exists>data. load_data (Some train) (Some features) (Some stores) = Inr data
     \<and> (\<forall>t \<in> set train. \<exists>u \<in> set data. sales_row.truncate u = t)
     \<and> (\<forall>u \<in> set data. sales_row.truncate u \<in> set train
          \<and> (case feature_cols u of
               None \<Rightarrow> \<forall>f \<in> set features.
                         \<not> (f_Store f = Store u \<and> f_Date f = Date u \<and> f_IsHoliday f = IsHoliday u)
             | Some c \<Rightarrow> \<exists>f \<in> set features.
                         f_Store f = Store u \<and> f_Date f = Date u \<and> f_IsHoliday f = IsHoliday u
                         \<and> f_cols f = c)
          \<and> (case store_cols u of
               None \<Rightarrow> \<forall>s \<in> set stores. s_Store s \<noteq> Store u
             | Some c \<Rightarrow> \<exists>s \<in> set stores. s_Store s = Store u \<and> s_cols s = c))
     \<and> sorted (map (\<lambda>u. (Store u, Dept u, Date u)) data)"
proof -
  let ?on1 = "\<lambda>t f. Store t = f_Store f \<and> Date t = f_Date f \<and> IsHoliday t = f_IsHoliday f"
  let ?on2 = "\<lambda>tf s. Store (fst tf) = s_Store s"
  let ?data1 = "merge_left ?on1 Pair train features"
  let ?data2 = "merge_left ?on2 joined ?data1 stores"
  let ?data = "sort_key (\<lambda>r. (Store r, Dept r, Date r)) ?data2"
  have eq: "load_data (Some train) (Some features) (Some stores) = Inr ?data"
    by (rule load_data_eq)
  have keep: "\<exists>u \<in> set ?data. sales_row.truncate u = t" if "t \<in> set train" for t
  proof -
    from that obtain x where "(t, x) \<in> set ?data1" using merge_left_keeps[of t train Pair] by blast
    then obtain y where "joined (t, x) y \<in> set ?data2"
      using merge_left_keeps[of "(t, x)" ?data1 joined] by blast
    then show ?thesis by (auto simp: joined_simps intro!: bexI[where x="joined (t, x) y"])
  qed
  have origin: "sales_row.truncate u \<in> set train
          \<and> (case feature_cols u of
               None \<Rightarrow> \<forall>f \<in> set features.
                         \<not> (f_Store f = Store u \<and> f_Date f = Date u \<and> f_IsHoliday f = IsHoliday u)
             | Some c \<Rightarrow> \<exists>f \<in> set features.
                         f_Store f = Store u \<and> f_Date f = Date u \<and> f_IsHoliday f = IsHoliday u
                         \<and> f_cols f = c)
          \<and> (case store_cols u of
               None \<Rightarrow> \<forall>s \<in> set stores. s_Store s \<noteq> Store u
             | Some c \<Rightarrow> \<exists>s \<in> set stores. s_Store s = Store u \<and> s_cols s = c)"
    if "u \<in> set ?data" for u
  proof -
    from that have "u \<in> set ?data2" by simp
    then obtain tf where tf: "tf \<in> set ?data1"
      and u: "(u = joined tf None \<and> (\<forall>s \<in> set stores. \<not> ?on2 tf s))
                \<or> (\<exists>s \<in> set stores. ?on2 tf s \<and> u = joined tf (Some s))"
      using merge_left_origin[of u ?on2 joined ?data1 stores] by blast
    from tf obtain t where t: "t \<in> set train"
      and p: "(tf = (t, None) \<and> (\<forall>f \<in> set features. \<not> ?on1 t f))
                \<or> (\<exists>f \<in> set features. ?on1 t f \<and> tf = (t, Some f))"
      using merge_left_origin[of tf ?on1 Pair train features] by blast
    obtain x where x: "tf = (t, x)" using p by auto
    have a: "sales_row.truncate u = t" "Store u = Store t" "Date u = Date t"
      "IsHoliday u = IsHoliday t" "feature_cols u = map_option f_cols x"
      using u x by (auto simp: joined_simps)
    have b: "case feature_cols u of
               None \<Rightarrow> \<forall>f \<in> set features.
                         \<not> (f_Store f = Store u \<and> f_Date f = Date u \<and> f_IsHoliday f = IsHoliday u)
             | Some c \<Rightarrow> \<exists>f \<in> set features.
                         f_Store f = Store u \<and> f_Date f = Date u \<and> f_IsHoliday f = IsHoliday u
                         \<and> f_cols f = c"
      using p x unfolding a by auto
    have c: "case store_cols u of
               None \<Rightarrow> \<forall>s \<in> set stores. s_Store s \<noteq> Store u
             | Some c \<Rightarrow> \<exists>s \<in> set stores. s_Store s = Store u \<and> s_cols s = c"
      using u x by (force simp: joined_simps)
    show ?thesis using a(1) t b c by simp
  qed
  have "sorted (map (\<lambda>u. (Store u, Dept u, Date u)) ?data)" by (rule sorted_sort_key)
  with eq keep origin show ?thesis by blast
qed

lemma load_data_example:
  "load_data (Some example_rows) (Some example_features) (Some example_stores) =
     Inr [\<lparr>Store = 1, Dept = 1, Date = 4, Weekly_Sales = 2, IsHoliday = False,
            feature_cols = Some ''mild'', store_cols = None\<rparr>,
          \<lparr>Store = 1, Dept = 1, Date = 4, Weekly_Sales = 3, IsHoliday = False,
            feature_cols = Some ''mild'', store_cols = None\<rparr>,
          \<lparr>Store = 1, Dept = 1, Date = 9, Weekly_Sales = 1, IsHoliday = True,
            feature_cols = None, store_cols = None\<rparr>,
          \<lparr>Store = 1, Dept = 1, Date = 25, Weekly_Sales = 4, IsHoliday = False,
            feature_cols = None, store_cols = None\<rparr>,
          \<lparr>Store = 1, Dept = 2, Date = 4, Weekly_Sales = 100, IsHoliday = False,
            feature_cols = Some ''mild'', store_cols = None\<rparr>]"
  by (simp add: load_data_def merge_left_def example_rows_def example_features_def
      example_stores_def sales_row.defs)

theorem load_data_left_join_sorted_witness:
  "\<exists>data. load_data (Some example_rows) (Some example_features) (Some example_stores) = Inr data
     \<and> length data = 5
     \<and> (\<exists>u \<in> set data. sales_row.truncate u = example_rows ! 3 \<and> feature_cols u = None)
     \<and> (\<exists>u \<in> set data. sales_row.truncate u = example_rows ! 2 \<and> feature_cols u = Some ''mild'')
     \<and> sorted (map (\<lambda>u. (Store u, Dept u, Date u)) data)"
proof -
  from load_data_left_join_sorted[of example_rows example_features example_stores]
  obtain data where d: "load_data (Some example_rows) (Some example_features) (Some example_stores) = Inr data"
    and s: "sorted (map (\<lambda>u. (Store u, Dept u, Date u)) data)"
    by blast
  from d have "length data = 5"
    and "\<exists>u \<in> set data. sales_row.truncate u = example_rows ! 3 \<and> feature_cols u = None"
    and "\<exists>u \<in> set data. sales_row.truncate u = example_rows ! 2 \<and> feature_cols u = Some ''mild''"
    unfolding load_data_example by (auto simp: example_rows_def sales_row.defs)
  with d s show ?thesis by blast
qed

section \<open>Length of the series\<close>

lemma length_week_labels:
  "sd \<noteq> [] \<Longrightarrow> length (week_labels sd)
     = nat ((week_end (Max (Date ` set sd)) - week_end (Min (Date ` set sd))) div 7 + 1)"
  by (simp add: week_labels_def length_week_range)

lemma week_end_of_sunday: "week_end (3 + 7 * n) = 3 + 7 * n"
  unfolding week_end_def by presburger

lemma select_key_two_rows: "select_key (two_rows n) 1 1 = two_rows n"
  by (simp add: select_key_def two_rows_def)

lemma two_rows_nonempty: "select_key (two_rows n) 1 1 \<noteq> []"
  by (simp add: select_key_two_rows) (simp add: two_rows_def)

lemma length_bins_two_rows:
  assumes "0 \<le> n"
  shows "length (week_labels (two_rows n)) = nat (n + 1)"
proof -
  have ne: "two_rows n \<noteq> []" by (simp add: two_rows_def)
  have s: "Date ` set (two_rows n) = {3, 3 + 7 * n}" by (simp add: two_rows_def)
  have mn: "Min (Date ` set (two_rows n)) = 3 + 7 * 0" using assms unfolding s by simp
  have mx: "Max (Date ` set (two_rows n)) = 3 + 7 * n" using assms unfolding s by simp
  show ?thesis
    unfolding length_week_labels[OF ne] mn mx week_end_of_sunday by simp
qed

lemma length_app_ts_two_rows: "0 \<le> n \<Longrightarrow> length (app_ts (two_rows n) 1 1) = nat (n + 1)"
  using length_map[of fst "app_ts (two_rows n) 1 1"]
  by (simp only: app_ts_labels select_key_two_rows length_bins_two_rows)

lemma length_gui_ts_two_rows: "0 \<le> n \<Longrightarrow> length (gui_ts (two_rows n) 1 1) = nat (n + 1)"
  using length_map[of fst "gui_ts (two_rows n) 1 1"]
  by (simp only: gui_ts_labels select_key_two_rows length_bins_two_rows)

lemma app_fit_stage_not_insufficient:
  "app_fit_stage fit predict ts h m \<noteq> Inl (Insufficient_data_have_need a b c)"
  by (simp add: app_fit_stage_def split: sum.splits)

lemma gui_fit_stage_not_too_short:
  "gui_fit_stage fit predict ts h \<noteq> Inl Need_at_least_20_data_points"
  by (simp add: gui_fit_stage_def split: sum.splits)

text \<open>
  C2, as amended. When the store and department have rows: \<^verbatim>\<open>generate_forecast\<close>
  of \<^verbatim>\<open>app.py\<close> rejects the series exactly when its length is below
  \<open>max (2 * m) (m + 5)\<close> and otherwise hands it to the fit (with \<open>m = 52\<close>, 104 points
  are accepted and 103 are rejected with the message that has 103 and asks for 104);
  \<^verbatim>\<open>run_forecast\<close> of \<^verbatim>\<open>sales.py\<close>, given a positive horizon, rejects the series
  exactly when its length is below 20 and otherwise hands it to the fit with period 52.
  The fit stage never produces either rejection message itself.
\<close>

theorem length_validation_of_each_program:
  fixes data :: "'a sales_row_scheme list"
  assumes "select_key data store_id dept_id \<noteq> []"
  shows "generate_forecast fit predict data store_id dept_id h m =
           (if int (length (app_ts data store_id dept_id)) < max (2 * m) (m + 5)
            then Inl (Insufficient_data_have_need (length (app_ts data store_id dept_id)) (2 * m) m)
            else app_fit_stage fit predict (app_ts data store_id dept_id) h m)
       \<and> (0 < h \<longrightarrow>
           run_forecast fit' predict' data (Number store_id) (Number dept_id) (Number h) =
             (if length (gui_ts data store_id dept_id) < 20
              then Inl Need_at_least_20_data_points
              else gui_fit_stage fit' predict' (gui_ts data store_id dept_id) h))
       \<and> (\<forall>a b c. app_fit_stage fit predict (app_ts data store_id dept_id) h m
                     \<noteq> Inl (Insufficient_data_have_need a b c))
       \<and> gui_fit_stage fit' predict' (gui_ts data store_id dept_id) h
            \<noteq> Inl Need_at_least_20_data_points"
proof -
  have a: "generate_forecast fit predict data store_id dept_id h m =
           (if int (length (app_ts data store_id dept_id)) < max (2 * m) (m + 5)
            then Inl (Insufficient_data_have_need (length (app_ts data store_id dept_id)) (2 * m) m)
            else app_fit_stage fit predict (app_ts data store_id dept_id) h m)"
    using assms by (simp add: generate_forecast_def Let_def)
  have g: "run_forecast fit' predict' data (Number store_id) (Number dept_id) (Number h) =
             (if length (gui_ts data store_id dept_id) < 20
              then Inl Need_at_least_20_data_points
              else gui_fit_stage fit' predict' (gui_ts data store_id dept_id) h)" if "0 < h"
    using assms that by (simp add: run_forecast_def Let_def)
  show ?thesis
    using a g app_fit_stage_not_insufficient gui_fit_stage_not_too_short by blast
qed

theorem length_validation_of_each_program_witness:
  "select_key (two_rows 102) 1 1 \<noteq> [] \<and> select_key (two_rows 103) 1 1 \<noteq> []
     \<and> generate_forecast failing_fit step_predict (two_rows 102) 1 1 30 52
          = Inl (Insufficient_data_have_need 103 104 52)
     \<and> length (app_ts (two_rows 103) 1 1) = 104
     \<and> generate_forecast failing_fit step_predict (two_rows 103) 1 1 30 52
          = app_fit_stage failing_fit step_predict (app_ts (two_rows 103) 1 1) 30 52
     \<and> run_forecast failing_fit step_predict (two_rows 18) (Number 1) (Number 1) (Number 30)
          = Inl Need_at_least_20_data_points"
  using length_validation_of_each_program[OF two_rows_nonempty[of 102],
          of failing_fit step_predict 30 52 failing_fit step_predict]
        length_validation_of_each_program[OF two_rows_nonempty[of 103],
          of failing_fit step_predict 30 52 failing_fit step_predict]
        length_validation_of_each_program[OF two_rows_nonempty[of 18],
          of failing_fit step_predict 30 52 failing_fit step_predict]
  by (simp add: two_rows_nonempty length_app_ts_two_rows length_gui_ts_two_rows)

text \<open>
  C2 as stated fails for \<^verbatim>\<open>sales.py\<close>: a series of 103 points, below
  \<open>max (2 * 52) (52 + 5) = 104\<close>, is not rejected but reaches the fit, whose exception
  is what \<^verbatim>\<open>run_forecast\<close> reports.
\<close>

theorem gui_accepts_103_points_counterexample:
  "length (gui_ts (two_rows 102) 1 1) = 103
     \<and> int (length (gui_ts (two_rows 102) 1 1)) < max (2 * 52) (52 + 5)
     \<and> run_forecast failing_fit step_predict (two_rows 102) (Number 1) (Number 1) (Number 30)
          = Inl (Error_fitting_model ())"
  by (simp add: run_forecast_def gui_fit_stage_def failing_fit_def two_rows_nonempty
      length_gui_ts_two_rows)

text \<open>
  C7 at seasonal period 1 and a series of three weekly points: the series is rejected
  against the threshold \<open>max (2 * 1) (1 + 5) = 6\<close>, while the message asks for
  \<open>2 * 1 = 2\<close> points, fewer than the three the series has.
\<close>

theorem need_message_understates_threshold:
  "generate_forecast fit predict (two_rows 2) 1 1 h 1 = Inl (Insufficient_data_have_need 3 2 1)
     \<and> max (2 * 1) (1 + 5) = (6::int)"
  by (simp add: generate_forecast_def two_rows_nonempty length_app_ts_two_rows)

section \<open>The forecast\<close>

lemma length_forecast_index: "1 \<le> h \<Longrightarrow> length (week_range (l + 7) (l + h * 7)) = nat h"
proof -
  assume "1 \<le> h"
  have "(l + h * 7 - (l + 7)) div 7 = h - 1" by simp
  then show ?thesis by (simp add: length_week_range)
qed

lemma forecast_points:
  assumes "ts \<noteq> []" and "1 \<le> h"
  shows "forecast predict mdl ts h =
           Inr (map (\<lambda>k. (fst (last ts) + 7 * (int k + 1), predict mdl (Suc k))) [0..<nat h])"
proof -
  let ?l = "fst (last ts)"
  let ?idx = "week_range (?l + 7) (?l + h * 7)"
  have len: "length ?idx = nat h" using assms(2) by (rule length_forecast_index)
  have ge: "\<not> ?l + h * 7 < ?l + 7" using assms(2) by simp
  have eq: "forecast predict mdl ts h = Inr (zip ?idx (map (predict mdl) [1..<Suc (length ?idx)]))"
    using assms(1) ge by (simp add: forecast_def Let_def)
  have "zip ?idx (map (predict mdl) [1..<Suc (length ?idx)])
          = map (\<lambda>k. (?l + 7 * (int k + 1), predict mdl (Suc k))) [0..<nat h]"
  proof (rule nth_equalityI)
    show "length (zip ?idx (map (predict mdl) [1..<Suc (length ?idx)]))
            = length (map (\<lambda>k. (?l + 7 * (int k + 1), predict mdl (Suc k))) [0..<nat h])"
      by (simp add: len del: upt_Suc)
  next
    fix k assume "k < length (zip ?idx (map (predict mdl) [1..<Suc (length ?idx)]))"
    then have k: "k < nat h" by (simp add: len del: upt_Suc)
    then have i: "?idx ! k = ?l + 7 + 7 * int k" using len by (intro nth_week_range) simp
    have v: "map (predict mdl) [1..<Suc (length ?idx)] ! k = predict mdl (Suc k)"
      using k len by (simp del: upt_Suc)
    have "zip ?idx (map (predict mdl) [1..<Suc (length ?idx)]) ! k
            = (?idx ! k, map (predict mdl) [1..<Suc (length ?idx)] ! k)"
      using k len by (intro nth_zip) (simp_all del: upt_Suc)
    then show "zip ?idx (map (predict mdl) [1..<Suc (length ?idx)]) ! k
            = map (\<lambda>k. (?l + 7 * (int k + 1), predict mdl (Suc k))) [0..<nat h] ! k"
      using k i v by (simp add: algebra_simps del: upt_Suc)
  qed
  with eq show ?thesis by simp
qed

lemma forecast_rejects: "ts \<noteq> [] \<Longrightarrow> h < 1 \<Longrightarrow> forecast predict mdl ts h = Inl PredictionRaised"
  by (simp add: forecast_def Let_def)

text \<open>
  C3. For a fitted model over a series that is not empty (every series that reaches a
  fit is not empty) and a horizon \<open>h\<close> of at least 1, the forecast returns exactly
  \<open>h\<close> points; the date of the \<open>k\<close>-th point is the last historical date plus
  \<open>7 * k\<close> days, so the first date is the last historical date plus 7 days and each
  date is 7 days after the one before.
\<close>

theorem forecast_gives_h_weekly_points:
  assumes "ts \<noteq> []" and "1 \<le> h"
  shows "\<exists>pts. forecast predict mdl ts h = Inr pts
           \<and> length pts = nat h
           \<and> (\<forall>k < nat h. fst (pts ! k) = fst (last ts) + 7 * (int k + 1))
           \<and> fst (hd pts) = fst (last ts) + 7
           \<and> (\<forall>k. Suc k < nat h \<longrightarrow> fst (pts ! Suc k) = fst (pts ! k) + 7)"
proof -
  let ?pts = "map (\<lambda>k. (fst (last ts) + 7 * (int k + 1), predict mdl (Suc k))) [0..<nat h]"
  have f: "forecast predict mdl ts h = Inr ?pts" using assms by (rule forecast_points)
  have l: "length ?pts = nat h" by simp
  have n: "\<And>k. k < nat h \<Longrightarrow> fst (?pts ! k) = fst (last ts) + 7 * (int k + 1)" by simp
  have "0 < nat h" using assms(2) by simp
  then have h: "fst (hd ?pts) = fst (last ts) + 7"
    by (simp add: hd_map upt_conv_Cons)
  have s: "\<And>k. Suc k < nat h \<Longrightarrow> fst (?pts ! Suc k) = fst (?pts ! k) + 7" by simp
  show ?thesis using f l n h s by blast
qed

lemma last_app_ts_example: "app_ts example_rows 1 1 \<noteq> [] \<and> fst (last (app_ts example_rows 1 1)) = 31"
  by (simp add: app_ts_example)

theorem forecast_gives_h_weekly_points_witness:
  "app_ts example_rows 1 1 \<noteq> [] \<and> (1::int) \<le> 3
     \<and> (\<exists>pts. forecast step_predict () (app_ts example_rows 1 1) 3 = (Inr pts :: unit exn + (date \<times> real) list)
           \<and> length pts = 3 \<and> map fst pts = [38, 45, 52])"
proof -
  have ne: "app_ts example_rows 1 1 \<noteq> []" using last_app_ts_example by simp
  have h: "(1::int) \<le> 3" by simp
  from forecast_gives_h_weekly_points[OF ne h, of step_predict "()"]
  obtain pts where p: "forecast step_predict () (app_ts example_rows 1 1) 3 = (Inr pts :: unit exn + (date \<times> real) list)"
    and l: "length pts = nat 3"
    and n: "\<forall>k < nat 3. fst (pts ! k) = fst (last (app_ts example_rows 1 1)) + 7 * (int k + 1)"
    by blast
  have "map fst pts = [38, 45, 52]"
  proof (rule nth_equalityI)
    show "length (map fst pts) = length [38, 45, 52 :: int]" using l by simp
  next
    fix k assume "k < length (map fst pts)"
    then have k: "k < 3" using l by simp
    then have "k = 0 \<or> k = 1 \<or> k = 2" by auto
    then show "map fst pts ! k = [38, 45, 52] ! k"
      using n l k last_app_ts_example by auto
  qed
  with p l ne h show ?thesis by auto
qed

section \<open>Requests that fail before the fit\<close>

lemma select_key_absent_example: "select_key example_rows 2 1 = []"
  by (simp add: select_key_def example_rows_def)

text \<open>
  C5, as amended. When no row has the requested store and department, both programs
  stop before any fit, whatever the fit would do, and return no result:
  \<^verbatim>\<open>generate_forecast\<close> returns the message that names the store and the
  department; \<^verbatim>\<open>run_forecast\<close>, given a positive horizon, shows the fixed message
  that there are no rows for this combination.
\<close>

theorem no_rows_for_key_fails_before_fit:
  fixes data :: "'a sales_row_scheme list"
  assumes "select_key data store_id dept_id = []"
  shows "generate_forecast fit predict data store_id dept_id h m
           = Inl (No_data_for_Store_Dept store_id dept_id)
       \<and> (0 < h \<longrightarrow>
            run_forecast fit' predict' data (Number store_id) (Number dept_id) (Number h)
              = Inl No_rows_for_this_combination)"
  using assms by (simp add: generate_forecast_def run_forecast_def)

theorem no_rows_for_key_fails_before_fit_witness:
  "select_key example_rows 2 1 = []
     \<and> generate_forecast constant_fit step_predict example_rows 2 1 30 52
          = Inl (No_data_for_Store_Dept 2 1)
     \<and> run_forecast constant_fit step_predict example_rows (Number 2) (Number 1) (Number 30)
          = Inl No_rows_for_this_combination"
  using no_rows_for_key_fails_before_fit[OF select_key_absent_example,
          of constant_fit step_predict 30 52 constant_fit step_predict]
  by (simp add: select_key_absent_example)

text \<open>
  C5 as stated fails for \<^verbatim>\<open>sales.py\<close>: the message for a missing key does not
  identify the store and department; two different missing keys get the same message.
\<close>

theorem gui_no_rows_message_names_no_key_counterexample:
  "run_forecast constant_fit step_predict example_rows (Number 2) (Number 1) (Number 30)
       = Inl No_rows_for_this_combination
     \<and> run_forecast constant_fit step_predict example_rows (Number 1) (Number 7) (Number 30)
       = Inl No_rows_for_this_combination"
  by (simp add: run_forecast_def select_key_def example_rows_def)

text \<open>
  C6, as amended. For a horizon below 1, \<^verbatim>\<open>run_forecast\<close> of \<^verbatim>\<open>sales.py\<close>
  stops with the message that the weeks must be a positive integer, before it looks at
  the data. \<^verbatim>\<open>generate_forecast\<close> of \<^verbatim>\<open>app.py\<close> has no check of the horizon:
  it never returns a forecast for such a horizon, and its message is that of the first
  stage that fails: no data for the key, insufficient data, the exception of the fit,
  or, after a fit that succeeded, the exception of the forecast call, reported as an
  error during model fitting.
\<close>

theorem horizon_below_one:
  fixes data :: "'a sales_row_scheme list"
  assumes "h < 1"
  shows "run_forecast fit' predict' data (Number store_id) (Number dept_id) (Number h)
           = Inl Weeks_must_be_a_positive_integer
       \<and> generate_forecast fit predict data store_id dept_id h m =
           (if select_key data store_id dept_id = []
            then Inl (No_data_for_Store_Dept store_id dept_id)
            else if int (length (app_ts data store_id dept_id)) < max (2 * m) (m + 5)
            then Inl (Insufficient_data_have_need (length (app_ts data store_id dept_id)) (2 * m) m)
            else case fit (app_ts data store_id dept_id) m of
                   Inl e \<Rightarrow> Inl (Error_during_model_fitting (Raised e))
                 | Inr hw_full \<Rightarrow> Inl (Error_during_model_fitting PredictionRaised))
       \<and> (\<forall>r. generate_forecast fit predict data store_id dept_id h m \<noteq> Inr r)"
proof -
  have g: "run_forecast fit' predict' data (Number store_id) (Number dept_id) (Number h)
           = Inl Weeks_must_be_a_positive_integer"
    using assms by (simp add: run_forecast_def)
  have a: "generate_forecast fit predict data store_id dept_id h m =
           (if select_key data store_id dept_id = []
            then Inl (No_data_for_Store_Dept store_id dept_id)
            else if int (length (app_ts data store_id dept_id)) < max (2 * m) (m + 5)
            then Inl (Insufficient_data_have_need (length (app_ts data store_id dept_id)) (2 * m) m)
            else case fit (app_ts data store_id dept_id) m of
                   Inl e \<Rightarrow> Inl (Error_during_model_fitting (Raised e))
                 | Inr hw_full \<Rightarrow> Inl (Error_during_model_fitting PredictionRaised))"
    using assms
    by (simp add: generate_forecast_def Let_def app_fit_stage_def app_ts_nonempty forecast_rejects
        split: sum.splits)
  have "\<And>r. generate_forecast fit predict data store_id dept_id h m \<noteq> Inr r"
    unfolding a by (simp split: sum.splits)
  with g a show ?thesis by blast
qed

theorem horizon_below_one_witness:
  "(0::int) < 1
     \<and> run_forecast constant_fit step_predict (two_rows 5) (Number 1) (Number 1) (Number 0)
          = Inl Weeks_must_be_a_positive_integer
     \<and> generate_forecast constant_fit step_predict (two_rows 5) 1 1 0 1
          = Inl (Error_during_model_fitting PredictionRaised)
     \<and> generate_forecast constant_fit step_predict example_rows 2 1 0 52
          = Inl (No_data_for_Store_Dept 2 1)"
proof -
  have h: "(0::int) < 1" by simp
  show ?thesis
    using horizon_below_one[OF h, of constant_fit step_predict "two_rows 5" 1 1 constant_fit step_predict 1]
      horizon_below_one[OF h, of constant_fit step_predict example_rows 2 1 constant_fit step_predict 52]
    by (simp add: two_rows_nonempty length_app_ts_two_rows constant_fit_def select_key_absent_example)
qed

text \<open>
  C6 as stated fails for \<^verbatim>\<open>app.py\<close>: with horizon 0 and enough data the fit is
  run (its exception, or after it the exception of the forecast call, is what is
  reported, as an error during model fitting), and with a missing key the message is
  the one for missing data; none is an error about the horizon.
\<close>

theorem app_fits_with_horizon_zero_counterexample:
  "generate_forecast failing_fit step_predict (two_rows 5) 1 1 0 1
       = Inl (Error_during_model_fitting (Raised ()))
     \<and> generate_forecast constant_fit step_predict (two_rows 5) 1 1 0 1
       = Inl (Error_during_model_fitting PredictionRaised)
     \<and> generate_forecast constant_fit step_predict example_rows 2 1 0 52
       = Inl (No_data_for_Store_Dept 2 1)"
  by (simp add: generate_forecast_def app_fit_stage_def failing_fit_def constant_fit_def
      two_rows_nonempty length_app_ts_two_rows app_ts_nonempty forecast_rejects
      select_key_absent_example)

section \<open>The pipelines end to end\<close>

lemma generate_forecast_returns:
  assumes "select_key data s d \<noteq> []"
    and "\<not> int (length (app_ts data s d)) < max (2 * m) (m + 5)"
    and "fit (app_ts data s d) m = Inr mdl" and "1 \<le> h"
  shows "generate_forecast fit predict data s d h m =
           Inr (app_ts data s d,
                map (\<lambda>k. (fst (last (app_ts data s d)) + 7 * (int k + 1), predict mdl (Suc k)))
                  [0..<nat h])"
  using assms
  by (simp add: generate_forecast_def Let_def app_fit_stage_def
      forecast_points[OF app_ts_nonempty[OF assms(1)] assms(4)])

lemma run_forecast_returns:
  assumes "select_key data s d \<noteq> []" and "20 \<le> length (gui_ts data s d)"
    and "fit (gui_ts data s d) 52 = Inr mdl" and "1 \<le> h"
  shows "run_forecast fit predict data (Number s) (Number d) (Number h) =
           Inr (gui_ts data s d,
                map (\<lambda>k. (fst (last (gui_ts data s d)) + 7 * (int k + 1), predict mdl (Suc k)))
                  [0..<nat h])"
  using assms
  by (simp add: run_forecast_def Let_def gui_fit_stage_def
      forecast_points[OF gui_ts_nonempty[OF assms(1)] assms(4)])

lemma run_forecast_never_uncaught:
  "run_forecast fit predict data store_val dept_val weeks_val \<noteq> Inl (Uncaught e)"
proof -
  have "gui_fit_stage fit predict (gui_ts data s d) h \<noteq> Inl (Uncaught e)"
    if "select_key data s d \<noteq> []" and "0 < h" for s d h
  proof (cases "fit (gui_ts data s d) 52")
    case (Inl a)
    then show ?thesis by (simp add: gui_fit_stage_def)
  next
    case (Inr mdl)
    have "1 \<le> h" using that(2) by simp
    then show ?thesis
      using Inr by (simp add: gui_fit_stage_def forecast_points[OF gui_ts_nonempty[OF that(1)]])
  qed
  then show ?thesis
    by (auto simp: run_forecast_def Let_def split: entry.splits)
qed

end
